theory Spec2Isabelle
  imports Main
begin

section \<open>Python strings and the character tables\<close>

text \<open>
  A Python \<open>str\<close> is a sequence of Unicode code points, so a text is a list of code points
  (\<open>len\<close> counts code points, a slice takes code points).  \<open>ustr\<close> turns an ASCII literal
  into such a text; the markers of the source that lie outside ASCII are named constants.
\<close>

type_synonym pystr = "nat list"

definition ustr :: "string \<Rightarrow> pystr" where
  "ustr s = map of_char s"

definition minus_sign :: nat where "minus_sign = 45"
definition plus_sign :: nat where "plus_sign = 43"
definition dot :: nat where "dot = 46"
definition comma :: nat where "comma = 44"
definition slash :: nat where "slash = 47"
definition percent :: nat where "percent = 37"
definition underscore :: nat where "underscore = 95"

text \<open>U+5E74, U+6708, U+65E5, U+65F6, U+5206, U+79D2: year, month, day, hour, minute, second.\<close>

definition year_marker :: nat where "year_marker = 24180"
definition month_marker :: nat where "month_marker = 26376"
definition day_marker :: nat where "day_marker = 26085"
definition hour_marker :: nat where "hour_marker = 26102"
definition minute_marker :: nat where "minute_marker = 20998"
definition second_marker :: nat where "second_marker = 31186"

text \<open>
  The classes \<open>\d\<close> and \<open>\w\<close> of a \<open>str\<close> pattern, \<open>str.isdigit\<close> and \<open>int\<close> consult the Unicode
  character database of the interpreter.  Its ASCII part is fixed and written out below.
  Its part beyond ASCII depends on the Unicode version and is a parameter of the model:
  \<open>char_class_of\<close> gives every code point from 128 on its class, which is a decimal digit
  with its value (category Nd), another character that \<open>isdigit\<close> accepts (a superscript
  digit and the like), another alphabetic or numeric character, white space, or none of
  these.

  The second parameter is the limit that the interpreter puts on the number of digits of
  a conversion between \<open>int\<close> and \<open>str\<close> (\<open>sys.get_int_max_str_digits()\<close>): 4300 unless it
  is set otherwise, and 0 when the limit is switched off or the interpreter has none.
  Every function that depends on the interpreter takes the two as its first argument \<open>U\<close>.
\<close>

datatype char_class = Decimal nat | Digit | Alnum | Space | Other

record runtime =
  char_class_of :: "nat \<Rightarrow> char_class"
  max_str_digits :: nat

definition ascii_digit :: "nat \<Rightarrow> bool" where
  "ascii_digit c = (48 \<le> c \<and> c \<le> 57)"

definition ascii_alpha :: "nat \<Rightarrow> bool" where
  "ascii_alpha c = ((65 \<le> c \<and> c \<le> 90) \<or> (97 \<le> c \<and> c \<le> 122))"

text \<open>\<open>Py_UNICODE_TODECIMAL\<close>: the value of a decimal digit, always below ten.\<close>

definition uni_decimal :: "runtime \<Rightarrow> nat \<Rightarrow> nat option" where
  "uni_decimal U c =
     (if c < 128 then (if ascii_digit c then Some (c - 48) else None)
      else (case char_class_of U c of
              Decimal d \<Rightarrow> if d < 10 then Some d else None
            | _ \<Rightarrow> None))"

text \<open>The class \<open>\d\<close> of the pattern.\<close>

definition is_decimal :: "runtime \<Rightarrow> nat \<Rightarrow> bool" where
  "is_decimal U c = (uni_decimal U c \<noteq> None)"

text \<open>\<open>Py_UNICODE_ISDIGIT\<close>, which \<open>str.isdigit\<close> asks of every character.\<close>

definition is_digit :: "runtime \<Rightarrow> nat \<Rightarrow> bool" where
  "is_digit U c = (is_decimal U c \<or> (128 \<le> c \<and> char_class_of U c = Digit))"

definition is_alnum :: "runtime \<Rightarrow> nat \<Rightarrow> bool" where
  "is_alnum U c =
     (if c < 128 then ascii_alpha c \<or> ascii_digit c
      else char_class_of U c = Alnum \<or> is_decimal U c \<or> is_digit U c)"

text \<open>The class \<open>\w\<close> of the pattern: alphanumeric or the underscore.\<close>

definition is_word :: "runtime \<Rightarrow> nat \<Rightarrow> bool" where
  "is_word U c = (is_alnum U c \<or> c = underscore)"

definition isdigit :: "runtime \<Rightarrow> pystr \<Rightarrow> bool" where
  "isdigit U s = (s \<noteq> [] \<and> list_all (is_digit U) s)"

text \<open>
  The interpreter as it starts: the limit of 4300 digits, and the database restricted to
  ASCII and the six markers of the source, which are letters (category Lo).  The closed
  examples below are evaluated with it.
\<close>

definition cpython_default :: runtime where
  "cpython_default =
     \<lparr> char_class_of =
         (\<lambda>c. if c \<in> set [year_marker, month_marker, day_marker,
                              hour_marker, minute_marker, second_marker]
              then Alnum else Other),
       max_str_digits = 4300 \<rparr>"

section \<open>The builtins \<open>int\<close>, \<open>str\<close> and the format \<open>{:,}\<close>\<close>

datatype exn = ValueError pystr | ContainerError pystr

text \<open>
  \<open>int(s)\<close> for a \<open>str\<close>, base ten.  The text is first brought to ASCII (a space beyond
  ASCII becomes a blank, a decimal digit its ASCII digit, anything else a question mark);
  then white space, an optional sign, digits with single underscores between them, and
  white space are read, and nothing may remain.  Integers are unbounded, but the
  conversion is refused when the literal has more digits than the limit of the
  interpreter: the digits are counted without the underscores and with the leading
  zeros, and the limit is looked at only beyond 640 digits.  \<open>None\<close> is the \<open>ValueError\<close>
  of either failure.
\<close>

definition exceeds_limit :: "nat \<Rightarrow> nat \<Rightarrow> bool" where
  "exceeds_limit limit digits = (640 < digits \<and> 0 < limit \<and> limit < digits)"

definition to_ascii :: "runtime \<Rightarrow> nat \<Rightarrow> nat" where
  "to_ascii U c =
     (if c < 127 then c
      else if 128 \<le> c \<and> char_class_of U c = Space then 32
      else (case uni_decimal U c of Some d \<Rightarrow> 48 + d | None \<Rightarrow> 63))"

definition py_isspace :: "nat \<Rightarrow> bool" where
  "py_isspace c = (c = 32 \<or> (9 \<le> c \<and> c \<le> 13))"

fun no_double_underscore :: "pystr \<Rightarrow> bool" where
  "no_double_underscore (a # b # cs) =
     (\<not> (a = underscore \<and> b = underscore) \<and> no_double_underscore (b # cs))"
| "no_double_underscore cs = True"

definition valid_body :: "pystr \<Rightarrow> bool" where
  "valid_body b =
     (b \<noteq> [] \<and> hd b \<noteq> underscore \<and> last b \<noteq> underscore \<and> no_double_underscore b)"

definition digits_value :: "pystr \<Rightarrow> nat" where
  "digits_value b = foldl (\<lambda>acc c. 10 * acc + (c - 48)) 0 (filter (\<lambda>c. c \<noteq> underscore) b)"

definition py_int :: "runtime \<Rightarrow> pystr \<Rightarrow> int option" where
  "py_int U s =
     (let t = dropWhile py_isspace (map (to_ascii U) s);
          neg = (t \<noteq> [] \<and> hd t = minus_sign);
          t2 = (if t \<noteq> [] \<and> (hd t = plus_sign \<or> hd t = minus_sign) then tl t else t);
          body = takeWhile (\<lambda>c. ascii_digit c \<or> c = underscore) t2;
          rest = dropWhile (\<lambda>c. ascii_digit c \<or> c = underscore) t2
      in if valid_body body \<and> list_all py_isspace rest
            \<and> \<not> exceeds_limit (max_str_digits U)
                    (length (filter (\<lambda>c. c \<noteq> underscore) body))
         then Some (if neg then - int (digits_value body) else int (digits_value body))
         else None)"

text \<open>
  \<open>str(n)\<close> for a natural number: its decimal digits, most significant first.  The source
  applies it, inside the messages, to the two counters only; a counter is the length of a
  list in memory and has far fewer than 640 digits, so the limit does not bear there.
\<close>

fun py_str :: "nat \<Rightarrow> pystr" where
  "py_str n = (if n < 10 then [48 + n] else py_str (n div 10) @ [48 + n mod 10])"

declare py_str.simps [simp del]

text \<open>
  The format \<open>{:,}\<close>: the digits of \<open>str\<close>, cut into groups of three from the right with a
  comma between the groups, after the sign of a negative number.  The conversion to digits
  is under the same limit: beyond 640 characters, sign included, it raises \<open>ValueError\<close>
  (\<open>None\<close>) when the digits are more than the limit.
\<close>

fun group_rev :: "pystr \<Rightarrow> pystr" where
  "group_rev (a # b # c # d # ds) = a # b # c # comma # group_rev (d # ds)"
| "group_rev ds = ds"

definition insert_thousands :: "pystr \<Rightarrow> pystr" where
  "insert_thousands ds = rev (group_rev (rev ds))"

definition format_comma :: "runtime \<Rightarrow> int \<Rightarrow> pystr option" where
  "format_comma U i =
     (let digits = py_str (nat \<bar>i\<bar>);
          strlen = length digits + (if i < 0 then 1 else 0)
      in if 640 < strlen \<and> 0 < max_str_digits U \<and> max_str_digits U < length digits
         then None
         else if i < 0 then Some (minus_sign # insert_thousands digits)
         else Some (insert_thousands digits))"

section \<open>\<open>WordNumberFormatter.format_number\<close>\<close>

text \<open>\<open>s.split('.')\<close>: the pieces of \<open>s\<close> between its points; never empty.\<close>

fun split_dot :: "pystr \<Rightarrow> pystr list" where
  "split_dot [] = [[]]"
| "split_dot (c # cs) =
     (if c = dot then [] # split_dot cs
      else (case split_dot cs of p # ps \<Rightarrow> (c # p) # ps | [] \<Rightarrow> [[c]]))"

definition startswith_minus :: "pystr \<Rightarrow> bool" where
  "startswith_minus s = (s \<noteq> [] \<and> hd s = minus_sign)"

text \<open>
  The body of the \<open>try\<close>: \<open>None\<close> is a \<open>ValueError\<close>, raised by \<open>int\<close>, by the format, or by
  unpacking a split that has not exactly two pieces.
\<close>

definition format_unsigned :: "runtime \<Rightarrow> pystr \<Rightarrow> pystr option" where
  "format_unsigned U num_str =
     (if dot \<in> set num_str then
        (case split_dot num_str of
           [integer_part, decimal_part] \<Rightarrow>
             (case py_int U integer_part of
                Some integer_num \<Rightarrow>
                  (case format_comma U integer_num of
                     Some formatted_integer \<Rightarrow> Some (formatted_integer @ [dot] @ decimal_part)
                   | None \<Rightarrow> None)
              | None \<Rightarrow> None)
         | _ \<Rightarrow> None)
      else (case py_int U num_str of
              Some num \<Rightarrow> format_comma U num
            | None \<Rightarrow> None))"

definition format_number :: "runtime \<Rightarrow> pystr \<Rightarrow> pystr" where
  "format_number U s =
     (let is_negative = startswith_minus s;
          num_str = (if is_negative then tl s else s)
      in case format_unsigned U num_str of
           Some result \<Rightarrow> if is_negative then minus_sign # result else result
         | None \<Rightarrow> if \<not> is_negative then num_str else minus_sign # num_str)"

section \<open>The pattern \<open>number_pattern\<close>\<close>

text \<open>
  \<open>(?<![/\w])-?\d+(?:\.\d+)?(?!\w|[-/...%])\<close> is matched by backtracking.  \<open>match_at U text pos\<close>
  is the end of the match that starts at \<open>pos\<close>, found in the order of the engine: the
  longest run of digits first and then shorter ones, for each of them the optional
  fraction with its longest run of digits first, and last no fraction.
\<close>

definition slice :: "pystr \<Rightarrow> nat \<Rightarrow> nat \<Rightarrow> pystr" where
  "slice s a b = take (b - a) (drop a s)"

definition char_at :: "pystr \<Rightarrow> nat \<Rightarrow> nat option" where
  "char_at s i = (if i < length s then Some (s ! i) else None)"

definition lookahead_chars :: "nat list" where
  "lookahead_chars = [minus_sign, slash, year_marker, month_marker, day_marker,
                      hour_marker, minute_marker, second_marker, percent]"

definition lookbehind_ok :: "runtime \<Rightarrow> pystr \<Rightarrow> nat \<Rightarrow> bool" where
  "lookbehind_ok U text pos =
     (case (if pos = 0 then None else char_at text (pos - 1)) of
        None \<Rightarrow> True
      | Some c \<Rightarrow> \<not> (c = slash \<or> is_word U c))"

definition lookahead_ok :: "runtime \<Rightarrow> pystr \<Rightarrow> nat \<Rightarrow> bool" where
  "lookahead_ok U text pos =
     (case char_at text pos of
        None \<Rightarrow> True
      | Some c \<Rightarrow> \<not> (is_word U c \<or> c \<in> set lookahead_chars))"

definition digits_run :: "runtime \<Rightarrow> pystr \<Rightarrow> nat \<Rightarrow> nat" where
  "digits_run U text pos = length (takeWhile (is_decimal U) (drop pos text))"

fun try_frac :: "runtime \<Rightarrow> pystr \<Rightarrow> nat \<Rightarrow> nat \<Rightarrow> nat option" where
  "try_frac U text p 0 = None"
| "try_frac U text p (Suc m) =
     (if lookahead_ok U text (p + Suc m) then Some (p + Suc m) else try_frac U text p m)"

definition match_tail :: "runtime \<Rightarrow> pystr \<Rightarrow> nat \<Rightarrow> nat option" where
  "match_tail U text q =
     (case (if char_at text q = Some dot
            then try_frac U text (q + 1) (digits_run U text (q + 1)) else None) of
        Some e \<Rightarrow> Some e
      | None \<Rightarrow> if lookahead_ok U text q then Some q else None)"

fun try_int :: "runtime \<Rightarrow> pystr \<Rightarrow> nat \<Rightarrow> nat \<Rightarrow> nat option" where
  "try_int U text p 0 = None"
| "try_int U text p (Suc k) =
     (case match_tail U text (p + Suc k) of
        Some e \<Rightarrow> Some e
      | None \<Rightarrow> try_int U text p k)"

definition match_at :: "runtime \<Rightarrow> pystr \<Rightarrow> nat \<Rightarrow> nat option" where
  "match_at U text pos =
     (if lookbehind_ok U text pos then
        (if char_at text pos = Some minus_sign then
           (case try_int U text (pos + 1) (digits_run U text (pos + 1)) of
              Some e \<Rightarrow> Some e
            | None \<Rightarrow> try_int U text pos (digits_run U text pos))
         else try_int U text pos (digits_run U text pos))
      else None)"

section \<open>\<open>WordNumberFormatter.process_text\<close>\<close>

definition date_chars :: "pystr list" where
  "date_chars = [[year_marker], [month_marker], [day_marker], [hour_marker],
                 [minute_marker], [second_marker], [minus_sign], [slash], [dot], [percent]]"

text \<open>
  The inner function \<open>replace_number\<close>, given the span of the match.  The second call of
  \<open>int\<close> stands outside every \<open>try\<close>, so its \<open>ValueError\<close> is a result of its own.  The three
  strings searched for in \<open>next_chars\<close> have one character each, so \<open>c in next_chars\<close> asks
  whether that character occurs.
\<close>

definition replace_number :: "runtime \<Rightarrow> pystr \<Rightarrow> nat \<Rightarrow> nat \<Rightarrow> exn + pystr" where
  "replace_number U text start end' =
     (let num_str = slice text start end';
          before = (if start > 0 then slice text (max 0 (start - 1)) start else []);
          after = (if end' < length text then slice text end' (end' + 1) else [])
      in if before \<in> set date_chars \<or> after \<in> set date_chars then Inr num_str
         else if length num_str = 4 \<and> isdigit U num_str then
           (case py_int U num_str of
              None \<Rightarrow> Inl (ValueError num_str)
            | Some year_num \<Rightarrow>
                if 1900 \<le> year_num \<and> year_num \<le> 2999 then
                  (let next_chars = (if end' + 2 \<le> length text
                                     then slice text end' (end' + 2) else drop end' text)
                   in if list_ex (\<lambda>c. c \<in> set next_chars) [year_marker, minus_sign, slash]
                      then Inr num_str
                      else Inr (format_number U num_str))
                else Inr (format_number U num_str))
         else Inr (format_number U num_str))"

lemma try_frac_bounds: "try_frac U t p m = Some e \<Longrightarrow> p < e \<and> e \<le> p + m"
  by (induction m) (auto split: if_splits)

lemma digits_run_le: "pos + digits_run U t pos \<le> max pos (length t)"
proof -
  have "digits_run U t pos \<le> length (drop pos t)"
    unfolding digits_run_def by (rule length_takeWhile_le)
  then show ?thesis by simp
qed

lemma match_tail_bounds:
  assumes a: "match_tail U t q = Some e"
  shows "q \<le> e \<and> e \<le> max q (length t)"
proof (cases "char_at t q = Some dot")
  case True
  then have ql: "q < length t" by (simp add: char_at_def split: if_splits)
  have b: "q + 1 + digits_run U t (q + 1) \<le> max (q + 1) (length t)"
    by (rule digits_run_le)
  show ?thesis
  proof (cases "try_frac U t (q + 1) (digits_run U t (q + 1))")
    case None
    with a True show ?thesis by (simp add: match_tail_def split: if_splits)
  next
    case (Some e')
    with a True have "e' = e" by (simp add: match_tail_def)
    with Some have "q + 1 < e \<and> e \<le> q + 1 + digits_run U t (q + 1)"
      using try_frac_bounds by blast
    with b ql show ?thesis by simp
  qed
next
  case False
  with a show ?thesis by (simp add: match_tail_def split: if_splits)
qed

lemma try_int_bounds:
  "try_int U t p k = Some e \<Longrightarrow> p + k \<le> length t \<Longrightarrow> p < e \<and> e \<le> length t"
proof (induction k)
  case 0
  then show ?case by simp
next
  case (Suc k)
  show ?case
  proof (cases "match_tail U t (p + Suc k)")
    case None
    with Suc show ?thesis by simp
  next
    case (Some e')
    with Suc.prems have "e' = e" by simp
    with Some have "p + Suc k \<le> e \<and> e \<le> max (p + Suc k) (length t)"
      using match_tail_bounds by blast
    with Suc.prems(2) show ?thesis by simp
  qed
qed

lemma try_int_run_bounds:
  assumes "try_int U t p (digits_run U t p) = Some e" and "p \<le> length t"
  shows "p < e \<and> e \<le> length t"
proof -
  have "p + digits_run U t p \<le> max p (length t)" by (rule digits_run_le)
  with assms(2) have "p + digits_run U t p \<le> length t" by simp
  with assms(1) show ?thesis by (rule try_int_bounds)
qed

lemma match_at_cases:
  assumes "match_at U t pos = Some e"
  shows "lookbehind_ok U t pos \<and>
         ((char_at t pos = Some minus_sign \<and>
             try_int U t (pos + 1) (digits_run U t (pos + 1)) = Some e)
          \<or> try_int U t pos (digits_run U t pos) = Some e)"
  using assms by (auto simp: match_at_def split: if_splits option.splits)

lemma match_at_bounds:
  assumes a: "match_at U t pos = Some e" and b: "pos \<le> length t"
  shows "pos < e \<and> e \<le> length t"
proof -
  from match_at_cases[OF a] consider
      (neg) "char_at t pos = Some minus_sign"
            "try_int U t (pos + 1) (digits_run U t (pos + 1)) = Some e"
    | (pos) "try_int U t pos (digits_run U t pos) = Some e"
    by blast
  then show ?thesis
  proof cases
    case neg
    from neg(1) have "pos + 1 \<le> length t" by (simp add: char_at_def split: if_splits)
    with neg(2) have "pos + 1 < e \<and> e \<le> length t" by (rule try_int_run_bounds)
    then show ?thesis by simp
  next
    case pos
    then show ?thesis using b by (rule try_int_run_bounds)
  qed
qed

text \<open>
  \<open>number_pattern.sub(replace_number, text)\<close>: the text is scanned from the left; a match is
  replaced and the scan goes on at its end, any other character is copied.  A match is
  never empty, so the scan always advances.
\<close>

function sub_from :: "runtime \<Rightarrow> pystr \<Rightarrow> nat \<Rightarrow> exn + pystr" where
  "sub_from U text pos =
     (if length text < pos then Inr []
      else (case match_at U text pos of
              Some e \<Rightarrow>
                (case replace_number U text pos e of
                   Inl x \<Rightarrow> Inl x
                 | Inr r \<Rightarrow>
                     (case sub_from U text e of
                        Inl x \<Rightarrow> Inl x
                      | Inr rest \<Rightarrow> Inr (r @ rest)))
            | None \<Rightarrow>
                if pos < length text then
                  (case sub_from U text (pos + 1) of
                     Inl x \<Rightarrow> Inl x
                   | Inr rest \<Rightarrow> Inr (text ! pos # rest))
                else Inr []))"
  by pat_completeness auto
termination
proof (relation "measure (\<lambda>(U, text, pos). Suc (length text) - pos)")
  show "wf (measure (\<lambda>(U, text, pos). Suc (length text) - pos))" by simp
next
  fix U :: runtime and t :: pystr and pos e :: nat
  assume "\<not> length t < pos" and "match_at U t pos = Some e"
  then have "pos < e \<and> e \<le> length t" using match_at_bounds by simp
  then have "Suc (length t) - e < Suc (length t) - pos" by arith
  then show "((U, t, e), (U, t, pos))
               \<in> measure (\<lambda>(U, text, pos). Suc (length text) - pos)" by simp
next
  fix U :: runtime and t :: pystr and pos :: nat
  assume "\<not> length t < pos" and "pos < length t"
  then show "((U, t, pos + 1), (U, t, pos))
               \<in> measure (\<lambda>(U, text, pos). Suc (length text) - pos)" by simp
qed

declare sub_from.simps [simp del]

definition process_text :: "runtime \<Rightarrow> pystr \<Rightarrow> exn + pystr" where
  "process_text U text = sub_from U text 0"

section \<open>\<open>WordNumberFormatter.process_paragraph\<close>\<close>

text \<open>
  Modelled from the spec: the runs and paragraphs of the document container, which is a
  library outside the repository.  A run has a text and the fill of its shading element
  (\<open>None\<close> when there is none), which are all that the source reads and writes; \<open>run_id\<close>
  stands for the identity of the run within its paragraph.  The text of a paragraph is the
  concatenation of the texts of its runs.
\<close>

record run =
  run_id :: nat
  run_text :: pystr
  shd_fill :: "string option"

record docx_paragraph =
  runs :: "run list"

definition paragraph_text :: "docx_paragraph \<Rightarrow> pystr" where
  "paragraph_text p = concat (map run_text (runs p))"

text \<open>The loop over \<open>enumerate(paragraph.runs)\<close>.\<close>

fun rewrite_runs :: "pystr \<Rightarrow> nat \<Rightarrow> run list \<Rightarrow> run list" where
  "rewrite_runs formatted i [] = []"
| "rewrite_runs formatted i (r # rs) =
     (if i = 0 then r\<lparr>run_text := formatted, shd_fill := Some ''FFFF00''\<rparr>
      else r\<lparr>run_text := []\<rparr>) # rewrite_runs formatted (i + 1) rs"

definition process_paragraph :: "runtime \<Rightarrow> docx_paragraph \<Rightarrow> exn + docx_paragraph" where
  "process_paragraph U p =
     (let full_text = paragraph_text p
      in if full_text = [] \<or> runs p = [] then Inr p
         else (case process_text U full_text of
                 Inl x \<Rightarrow> Inl x
               | Inr formatted_full_text \<Rightarrow>
                   if full_text = formatted_full_text then Inr p
                   else Inr (p\<lparr>runs := rewrite_runs formatted_full_text 0 (runs p)\<rparr>)))"

section \<open>\<open>WordNumberFormatter.process_document\<close>\<close>






record result =
  success :: bool
  message :: pystr
  result_output_file :: "pystr option"







text \<open>The three literal pieces of the two messages, as code points.\<close>

definition msg_done :: pystr where
  "msg_done = [22788, 29702, 23436, 25104, 65281, 10, 22788, 29702, 27573, 33853, 25968, 65306]"

definition msg_tables :: pystr where
  "msg_tables = [10, 22788, 29702, 34920, 26684, 25968, 65306]"


definition success_result :: "nat \<Rightarrow> nat \<Rightarrow> pystr \<Rightarrow> result" where
  "success_result paragraph_count table_count out =
     \<lparr> success = True,
       message = msg_done @ py_str paragraph_count @ msg_tables @ py_str table_count,
       result_output_file = Some out \<rparr>"



section \<open>Notions of the specification\<close>

text \<open>
  Grouping as the specification words it: a separator stands after a digit exactly when
  the number of digits to its right is a positive multiple of three.
\<close>

fun spec_group :: "pystr \<Rightarrow> pystr" where
  "spec_group [] = []"
| "spec_group (d # ds) =
     (if ds \<noteq> [] \<and> length ds mod 3 = 0 then d # comma # spec_group ds
      else d # spec_group ds)"


text \<open>The number that a sequence of decimal digits denotes.\<close>

definition decimal_value :: "runtime \<Rightarrow> pystr \<Rightarrow> nat" where
  "decimal_value U s = digits_value (map (to_ascii U) s)"


text \<open>
  The integer part of a literal: what stands before the first decimal point, after a
  leading minus sign is taken off.
\<close>

definition integer_part :: "pystr \<Rightarrow> pystr" where
  "integer_part s = takeWhile (\<lambda>c. c \<noteq> dot) (if startswith_minus s then tl s else s)"

text \<open>
  The delimiters of dates, times and percentages, and what it means that one of them stands
  immediately before a span that starts at \<open>start\<close>, or immediately after one that ends
  at \<open>e\<close>.
\<close>

definition delimiters :: "nat list" where
  "delimiters = [year_marker, month_marker, day_marker, hour_marker, minute_marker,
                 second_marker, minus_sign, slash, dot, percent]"





section \<open>Examples\<close>

text \<open>
  Three runs that together read \<open>Total: 10000 units\<close>; and a document with two paragraphs
  and one table of one cell, in a container that knows the one path \<open>in.docx\<close> and keeps
  what is saved in a list.
\<close>

definition example_runs :: "run list" where
  "example_runs =
     [\<lparr> run_id = 0, run_text = ustr ''Total: 10'', shd_fill = None \<rparr>,
      \<lparr> run_id = 1, run_text = ustr ''000'', shd_fill = None \<rparr>,
      \<lparr> run_id = 2, run_text = ustr '' units'', shd_fill = None \<rparr>]"



text \<open>A number whose decimal text has 4301 digits.\<close>

definition over_limit_number :: nat where
  "over_limit_number = 10 ^ 4300"

section \<open>Evaluation\<close>

lemmas eval_defs = ustr_def format_number_def format_unsigned_def py_int_def startswith_minus_def
  minus_sign_def plus_sign_def dot_def comma_def underscore_def slash_def percent_def
  year_marker_def month_marker_def day_marker_def hour_marker_def minute_marker_def
  second_marker_def to_ascii_def py_isspace_def valid_body_def digits_value_def ascii_digit_def
  ascii_alpha_def format_comma_def insert_thousands_def py_str.simps Let_def slice_def
  char_at_def lookahead_chars_def lookbehind_ok_def lookahead_ok_def digits_run_def
  match_tail_def match_at_def date_chars_def replace_number_def sub_from.simps process_text_def
  cpython_default_def uni_decimal_def is_decimal_def is_digit_def is_alnum_def is_word_def
  isdigit_def integer_part_def exceeds_limit_def

section \<open>Grouping and the conversions between numbers and digits\<close>

lemma spec_group_append3:
  "ds \<noteq> [] \<Longrightarrow> spec_group (ds @ [a, b, c]) = spec_group ds @ [comma, a, b, c]"
  by (induction ds) auto

lemma rev_group_rev: "rev (group_rev xs) = spec_group (rev xs)"
proof (induction xs rule: group_rev.induct)
  case (1 a b c d ds)
  have "rev (a # b # c # d # ds) = rev (d # ds) @ [c, b, a]" by simp
  then have "spec_group (rev (a # b # c # d # ds)) = spec_group (rev (d # ds)) @ [comma, c, b, a]"
    using spec_group_append3[of "rev (d # ds)" c b a] by simp
  with 1 show ?case by simp
qed simp_all

lemma insert_thousands_spec: "insert_thousands ds = spec_group ds"
  by (simp add: insert_thousands_def rev_group_rev)

lemma spec_group_short: "length ds \<le> 3 \<Longrightarrow> spec_group ds = ds"
  by (induction ds) auto

lemma py_str_nonempty: "py_str n \<noteq> []"
  by (subst py_str.simps) simp

lemma py_str_digits: "list_all ascii_digit (py_str n)"
proof (induction n rule: py_str.induct)
  case (1 n)
  show ?case
  proof (cases "n < 10")
    case True
    then show ?thesis by (subst py_str.simps) (simp add: ascii_digit_def)
  next
    case False
    have "n mod 10 < 10" by simp
    then have "ascii_digit (48 + n mod 10)" unfolding ascii_digit_def by linarith
    with False 1 show ?thesis by (subst py_str.simps) simp
  qed
qed

lemma py_str_length: "n < 1000 \<Longrightarrow> length (py_str n) \<le> 3"
  by (subst py_str.simps, subst py_str.simps, subst py_str.simps) simp

lemma digit_not_underscore: "ascii_digit c \<Longrightarrow> c \<noteq> underscore"
  by (auto simp: ascii_digit_def underscore_def)

lemma filter_digits: "list_all ascii_digit b \<Longrightarrow> filter (\<lambda>c. c \<noteq> underscore) b = b"
  by (induction b) (auto simp: digit_not_underscore)

lemma digits_value_snoc:
  "list_all ascii_digit b \<Longrightarrow> ascii_digit c \<Longrightarrow>
     digits_value (b @ [c]) = 10 * digits_value b + (c - 48)"
  by (simp add: digits_value_def filter_digits digit_not_underscore)

lemma digits_value_py_str: "digits_value (py_str n) = n"
proof (induction n rule: py_str.induct)
  case (1 n)
  show ?case
  proof (cases "n < 10")
    case True
    then show ?thesis by (subst py_str.simps) (simp add: digits_value_def underscore_def)
  next
    case False
    have "n mod 10 < 10" by simp
    then have d: "ascii_digit (48 + n mod 10)" unfolding ascii_digit_def by linarith
    have "digits_value (py_str (n div 10) @ [48 + n mod 10]) = 10 * digits_value (py_str (n div 10)) + n mod 10"
      using digits_value_snoc[OF py_str_digits d] by simp
    with False 1 show ?thesis by (subst py_str.simps) simp
  qed
qed

lemma to_ascii_decimal: "is_decimal U c \<Longrightarrow> ascii_digit (to_ascii U c)"
  by (auto simp: is_decimal_def uni_decimal_def to_ascii_def ascii_digit_def
           split: if_splits char_class.splits)

lemma to_ascii_digit: "ascii_digit c \<Longrightarrow> to_ascii U c = c"
  by (auto simp: to_ascii_def ascii_digit_def)

lemma ascii_digit_decimal: "ascii_digit c \<Longrightarrow> is_decimal U c"
  by (auto simp: is_decimal_def uni_decimal_def ascii_digit_def)

lemma decimal_not_special:
  "is_decimal U c \<Longrightarrow> c \<noteq> dot \<and> c \<noteq> minus_sign"
  by (auto simp: is_decimal_def uni_decimal_def ascii_digit_def dot_def minus_sign_def
           split: if_splits)


lemma map_to_ascii_digits: "list_all ascii_digit s \<Longrightarrow> map (to_ascii U) s = s"
  by (induction s) (auto simp: to_ascii_digit)

lemma no_double_underscore_digits: "list_all ascii_digit b \<Longrightarrow> no_double_underscore b"
  by (induction b rule: no_double_underscore.induct) (auto simp: digit_not_underscore)

lemma valid_body_digits: "list_all ascii_digit b \<Longrightarrow> b \<noteq> [] \<Longrightarrow> valid_body b"
proof -
  assume a: "list_all ascii_digit b" and n: "b \<noteq> []"
  from a n have "ascii_digit (hd b)" "ascii_digit (last b)"
    by (auto simp: list_all_iff)
  then show ?thesis using a n
    by (simp add: valid_body_def no_double_underscore_digits digit_not_underscore)
qed

lemma digit_not_space_sign:
  "ascii_digit c \<Longrightarrow> \<not> py_isspace c \<and> c \<noteq> plus_sign \<and> c \<noteq> minus_sign"
  by (auto simp: ascii_digit_def py_isspace_def plus_sign_def minus_sign_def)

lemma digits_value_lt: "list_all ascii_digit b \<Longrightarrow> digits_value b < 10 ^ length b"
proof (induction b rule: rev_induct)
  case Nil
  then show ?case by (simp add: digits_value_def)
next
  case (snoc c b)
  then have b: "list_all ascii_digit b" and c: "ascii_digit c" by simp_all
  from c have "c - 48 < 10" by (auto simp: ascii_digit_def)
  moreover from snoc.IH[OF b] have "digits_value b + 1 \<le> 10 ^ length b" by simp
  then have "10 * (digits_value b + 1) \<le> 10 * 10 ^ length b" by (rule mult_le_mono2)
  ultimately show ?case by (simp add: digits_value_snoc[OF b c])
qed

lemma py_str_length_le: "n < 10 ^ k \<Longrightarrow> 0 < k \<Longrightarrow> length (py_str n) \<le> k"
proof (induction n arbitrary: k rule: py_str.induct)
  case (1 n)
  show ?case
  proof (cases "n < 10")
    case True
    with "1.prems"(2) show ?thesis by (subst py_str.simps) simp
  next
    case False
    from "1.prems"(2) obtain j where k: "k = Suc j" by (cases k) auto
    from False "1.prems"(1) k have j: "0 < j" by (cases j) auto
    from "1.prems"(1) k have "n div 10 < 10 ^ j"
      by (simp add: less_mult_imp_div_less mult.commute)
    from "1.IH"[OF False this j] have "length (py_str (n div 10)) \<le> j" .
    with False k show ?thesis by (subst py_str.simps) simp
  qed
qed

lemma exceeds_limit_mono: "\<not> exceeds_limit l d \<Longrightarrow> d' \<le> d \<Longrightarrow> \<not> exceeds_limit l d'"
  by (auto simp: exceeds_limit_def)

lemma exceeds_limit_small: "d \<le> 640 \<Longrightarrow> \<not> exceeds_limit l d"
  by (simp add: exceeds_limit_def)

lemma py_int_ascii_digits:
  assumes a: "list_all ascii_digit t" and n: "t \<noteq> []"
  shows "(let t1 = dropWhile py_isspace t;
          neg = (t1 \<noteq> [] \<and> hd t1 = minus_sign);
          t2 = (if t1 \<noteq> [] \<and> (hd t1 = plus_sign \<or> hd t1 = minus_sign) then tl t1 else t1);
          body = takeWhile (\<lambda>c. ascii_digit c \<or> c = underscore) t2;
          rest = dropWhile (\<lambda>c. ascii_digit c \<or> c = underscore) t2
      in if valid_body body \<and> list_all py_isspace rest
            \<and> \<not> exceeds_limit l (length (filter (\<lambda>c. c \<noteq> underscore) body))
         then Some (if neg then - int (digits_value body) else int (digits_value body))
         else None)
     = (if exceeds_limit l (length t) then None else Some (int (digits_value t)))"
proof -
  from a n have h: "ascii_digit (hd t)" by (auto simp: list_all_iff)
  from n h have d: "dropWhile py_isspace t = t"
    by (cases t) (auto simp: digit_not_space_sign)
  from a have tw: "takeWhile (\<lambda>c. ascii_digit c \<or> c = underscore) t = t"
    by (simp add: takeWhile_eq_all_conv list_all_iff)
  from a have dw: "dropWhile (\<lambda>c. ascii_digit c \<or> c = underscore) t = []"
    by (simp add: list_all_iff)
  show ?thesis
    using h
    by (simp add: d tw dw Let_def valid_body_digits[OF a n] digit_not_space_sign
                  filter_digits[OF a])
qed

lemma py_int_decimal_run:
  assumes "list_all (is_decimal U) s" and "s \<noteq> []"
  shows "py_int U s = (if exceeds_limit (max_str_digits U) (length s) then None
                       else Some (int (decimal_value U s)))"
proof -
  from assms(1) have "list_all ascii_digit (map (to_ascii U) s)"
    by (induction s) (auto simp: to_ascii_decimal)
  moreover from assms(2) have "map (to_ascii U) s \<noteq> []" by simp
  ultimately show ?thesis
    unfolding py_int_def decimal_value_def
    using py_int_ascii_digits[of "map (to_ascii U) s" "max_str_digits U"] by simp
qed

lemma py_int_decimals:
  assumes "list_all (is_decimal U) s" and "s \<noteq> []"
    and "\<not> exceeds_limit (max_str_digits U) (length s)"
  shows "py_int U s = Some (int (decimal_value U s))"
  using py_int_decimal_run[OF assms(1,2)] assms(3) by simp

lemma py_int_over_limit:
  assumes "list_all (is_decimal U) s" and "exceeds_limit (max_str_digits U) (length s)"
  shows "py_int U s = None"
proof -
  from assms(2) have "s \<noteq> []" by (auto simp: exceeds_limit_def)
  from py_int_decimal_run[OF assms(1) this] assms(2) show ?thesis by simp
qed

lemma decimal_value_py_str: "decimal_value U (py_str n) = n"
  by (simp add: decimal_value_def map_to_ascii_digits[OF py_str_digits] digits_value_py_str)

lemma py_str_decimal_length:
  assumes "list_all (is_decimal U) s" and "s \<noteq> []"
  shows "length (py_str (decimal_value U s)) \<le> length s"
proof -
  from assms(1) have "list_all ascii_digit (map (to_ascii U) s)"
    by (induction s) (auto simp: to_ascii_decimal)
  then have "digits_value (map (to_ascii U) s) < 10 ^ length (map (to_ascii U) s)"
    by (rule digits_value_lt)
  then have "decimal_value U s < 10 ^ length s" by (simp add: decimal_value_def)
  moreover from assms(2) have "0 < length s" by simp
  ultimately show ?thesis by (rule py_str_length_le)
qed

lemma format_comma_nat:
  assumes "\<not> exceeds_limit (max_str_digits U) (length (py_str n))"
  shows "format_comma U (int n) = Some (spec_group (py_str n))"
  using assms by (simp add: format_comma_def insert_thousands_spec exceeds_limit_def Let_def)

lemma format_comma_value:
  assumes "list_all (is_decimal U) s" and "s \<noteq> []"
    and "\<not> exceeds_limit (max_str_digits U) (length s)"
  shows "format_comma U (int (decimal_value U s)) = Some (spec_group (py_str (decimal_value U s)))"
proof -
  from assms(3) py_str_decimal_length[OF assms(1,2)]
  have "\<not> exceeds_limit (max_str_digits U) (length (py_str (decimal_value U s)))"
    by (rule exceeds_limit_mono)
  then show ?thesis by (rule format_comma_nat)
qed

lemma split_dot_no_dot: "dot \<notin> set s \<Longrightarrow> split_dot s = [s]"
  by (induction s) auto

lemma split_dot_one: "dot \<notin> set ip \<Longrightarrow> dot \<notin> set d \<Longrightarrow> split_dot (ip @ dot # d) = [ip, d]"
  by (induction ip) (auto simp: split_dot_no_dot)

lemma decimals_no_dot: "list_all (is_decimal U) s \<Longrightarrow> dot \<notin> set s"
  using decimal_not_special by (auto simp: list_all_iff)

lemma format_unsigned_integer:
  assumes "list_all (is_decimal U) ip" and "ip \<noteq> []"
    and "\<not> exceeds_limit (max_str_digits U) (length ip)"
  shows "format_unsigned U ip = Some (spec_group (py_str (decimal_value U ip)))"
  using assms
  by (simp add: format_unsigned_def decimals_no_dot py_int_decimals format_comma_value)

lemma format_unsigned_fraction:
  assumes "list_all (is_decimal U) ip" and "ip \<noteq> []"
    and "\<not> exceeds_limit (max_str_digits U) (length ip)"
    and "list_all (is_decimal U) d"
  shows "format_unsigned U (ip @ dot # d)
           = Some (spec_group (py_str (decimal_value U ip)) @ dot # d)"
  using assms
  by (simp add: format_unsigned_def split_dot_one decimals_no_dot py_int_decimals
                format_comma_value)

lemma format_unsigned_literal:
  assumes "list_all (is_decimal U) ip" and "ip \<noteq> []"
    and "\<not> exceeds_limit (max_str_digits U) (length ip)"
    and "frac = [] \<or> (\<exists>d. frac = dot # d \<and> list_all (is_decimal U) d)"
  shows "format_unsigned U (ip @ frac) = Some (spec_group (py_str (decimal_value U ip)) @ frac)"
  using assms format_unsigned_integer format_unsigned_fraction by auto

lemma literal_not_signed:
  assumes "list_all (is_decimal U) ip" and "ip \<noteq> []"
  shows "\<not> startswith_minus (ip @ frac)"
proof -
  from assms have "is_decimal U (hd ip)" by (auto simp: list_all_iff)
  then have "hd ip \<noteq> minus_sign" using decimal_not_special by blast
  with assms(2) show ?thesis by (simp add: startswith_minus_def)
qed

lemma format_number_literal:
  assumes ip: "list_all (is_decimal U) ip" and n: "ip \<noteq> []"
    and lim: "\<not> exceeds_limit (max_str_digits U) (length ip)"
    and frac: "frac = [] \<or> (\<exists>d. frac = dot # d \<and> list_all (is_decimal U) d)"
    and sg: "sg = [] \<or> sg = [minus_sign]"
  shows "format_number U (sg @ ip @ frac)
           = sg @ spec_group (py_str (decimal_value U ip)) @ frac"
proof -
  note ns = literal_not_signed[OF ip n, of frac]
  note fu = format_unsigned_literal[OF ip n lim frac]
  from sg show ?thesis
  proof
    assume "sg = []"
    with ns fu show ?thesis by (simp add: format_number_def)
  next
    assume "sg = [minus_sign]"
    with fu show ?thesis by (simp add: format_number_def startswith_minus_def)
  qed
qed


lemma split_dot_head: "\<exists>ps. split_dot s = takeWhile (\<lambda>c. c \<noteq> dot) s # ps"
  by (induction s) auto

lemma format_unsigned_fails:
  assumes "py_int U (takeWhile (\<lambda>c. c \<noteq> dot) b) = None"
  shows "format_unsigned U b = None"
proof (cases "dot \<in> set b")
  case False
  then have "takeWhile (\<lambda>c. c \<noteq> dot) b = b" by (induction b) auto
  with assms False show ?thesis by (simp add: format_unsigned_def)
next
  case True
  obtain ps where ps: "split_dot b = takeWhile (\<lambda>c. c \<noteq> dot) b # ps"
    using split_dot_head by blast
  with assms True show ?thesis
    by (simp add: format_unsigned_def split: list.splits)
qed

text \<open>Beyond the limit \<open>int\<close> raises, and the literal comes back as it was.\<close>

lemma format_number_over_limit:
  assumes ip: "list_all (is_decimal U) ip"
    and lim: "exceeds_limit (max_str_digits U) (length ip)"
    and frac: "frac = [] \<or> (\<exists>d. frac = dot # d \<and> list_all (is_decimal U) d)"
    and sg: "sg = [] \<or> sg = [minus_sign]"
  shows "format_number U (sg @ ip @ frac) = sg @ ip @ frac"
proof -
  from lim have n: "ip \<noteq> []" by (auto simp: exceeds_limit_def)
  note ns = literal_not_signed[OF ip n, of frac]
  from ip have nd: "dot \<notin> set ip" by (rule decimals_no_dot)
  have "takeWhile (\<lambda>c. c \<noteq> dot) (ip @ dot # d) = ip" for d
    using nd by (induction ip) auto
  moreover have "takeWhile (\<lambda>c. c \<noteq> dot) ip = ip"
    using nd by (induction ip) auto
  ultimately have "takeWhile (\<lambda>c. c \<noteq> dot) (ip @ frac) = ip"
    using frac by auto
  then have "py_int U (takeWhile (\<lambda>c. c \<noteq> dot) (ip @ frac)) = None"
    using py_int_over_limit[OF ip lim] by simp
  then have fu: "format_unsigned U (ip @ frac) = None" by (rule format_unsigned_fails)
  from sg show ?thesis
  proof
    assume "sg = []"
    with ns fu show ?thesis by (simp add: format_number_def)
  next
    assume "sg = [minus_sign]"
    with fu show ?thesis by (simp add: format_number_def startswith_minus_def)
  qed
qed

text \<open>
  The number \<open>10 ^ 4300\<close> has 4301 digits, one more than the limit of the interpreter as it
  starts; its grouped form has commas, its decimal text has none.
\<close>

lemma py_str_pow10: "py_str (10 ^ k) = 49 # replicate k 48"
proof (induction k)
  case 0
  show ?case by (subst py_str.simps) simp
next
  case (Suc k)
  have "\<not> (10::nat) ^ Suc k < 10" by simp
  then have "py_str (10 ^ Suc k) = py_str (10 ^ Suc k div 10) @ [48 + 10 ^ Suc k mod 10]"
    by (subst py_str.simps) simp
  with Suc show ?case by (simp add: replicate_append_same)
qed

lemma py_str_over_limit_number: "py_str over_limit_number = 49 # replicate 4300 48"
  unfolding over_limit_number_def by (rule py_str_pow10)

lemma over_limit_number_exceeds:
  "exceeds_limit (max_str_digits cpython_default) (length (py_str over_limit_number))"
  by (simp add: py_str_over_limit_number exceeds_limit_def cpython_default_def)

lemma spec_group_comma: "4 \<le> length ds \<Longrightarrow> comma \<in> set (spec_group ds)"
proof (induction ds)
  case Nil
  then show ?case by simp
next
  case (Cons d ds)
  show ?case
  proof (cases "length ds mod 3 = 0")
    case True
    with Cons.prems show ?thesis by auto
  next
    case False
    with Cons.prems have "4 \<le> length ds" by (cases "length ds = 3") auto
    with Cons.IH False show ?thesis by simp
  qed
qed

lemma over_limit_number_grouped: "comma \<in> set (spec_group (py_str over_limit_number))"
  by (rule spec_group_comma) (simp add: py_str_over_limit_number)

lemma over_limit_number_plain: "comma \<notin> set (py_str over_limit_number)"
  by (simp add: py_str_over_limit_number comma_def)

section \<open>Properties of \<open>format_number\<close>\<close>

text \<open>
  C1.  For every natural number \<open>n\<close> whose decimal text does not exceed the limit of the
  interpreter, \<open>format_number\<close> applied to that text returns its digits with a comma after
  every digit that has a positive multiple of three digits to its right; beyond the limit
  it returns the digits as they are; and it returns the digits unchanged when \<open>n < 1000\<close>.
\<close>

theorem format_number_grouping:
  "(\<not> exceeds_limit (max_str_digits U) (length (py_str n))
      \<longrightarrow> format_number U (py_str n) = spec_group (py_str n))
   \<and> (exceeds_limit (max_str_digits U) (length (py_str n))
      \<longrightarrow> format_number U (py_str n) = py_str n)
   \<and> (n < 1000 \<longrightarrow> format_number U (py_str n) = py_str n)"
proof -
  have d: "list_all (is_decimal U) (py_str n)"
    using py_str_digits[of n] ascii_digit_decimal by (auto simp: list_all_iff)
  have g: "format_number U (py_str n) = spec_group (py_str n)"
    if l: "\<not> exceeds_limit (max_str_digits U) (length (py_str n))"
  proof -
    have "format_number U ([] @ py_str n @ [])
            = [] @ spec_group (py_str (decimal_value U (py_str n))) @ []"
      using d py_str_nonempty l by (intro format_number_literal) simp_all
    then show ?thesis by (simp add: decimal_value_py_str)
  qed
  have o: "format_number U (py_str n) = py_str n"
    if l: "exceeds_limit (max_str_digits U) (length (py_str n))"
  proof -
    have "format_number U ([] @ py_str n @ []) = [] @ py_str n @ []"
      using d l by (intro format_number_over_limit) simp_all
    then show ?thesis by simp
  qed
  have s: "format_number U (py_str n) = py_str n" if "n < 1000"
  proof -
    from that have l3: "length (py_str n) \<le> 3" by (rule py_str_length)
    then have "\<not> exceeds_limit (max_str_digits U) (length (py_str n))"
      by (intro exceeds_limit_small) simp
    with g l3 show ?thesis by (simp add: spec_group_short)
  qed
  from g o s show ?thesis by blast
qed

theorem format_number_grouping_witness:
  "format_number cpython_default (py_str 999) = ustr ''999''
   \<and> format_number cpython_default (py_str 1234567) = ustr ''1,234,567''
   \<and> format_number cpython_default (py_str over_limit_number) = py_str over_limit_number"
proof -
  have a: "py_str 999 = ustr ''999''" by (simp add: py_str.simps ustr_def)
  have p: "py_str 1234567 = ustr ''1234567''" by (simp add: py_str.simps ustr_def)
  have b: "spec_group (ustr ''1234567'') = ustr ''1,234,567''"
    by (simp add: ustr_def comma_def)
  have l: "\<not> exceeds_limit (max_str_digits cpython_default) (length (py_str 1234567))"
    by (simp add: p) (simp add: ustr_def exceeds_limit_def)
  have k: "(999::nat) < 1000" by simp
  from format_number_grouping[of cpython_default 999] k
  have r1: "format_number cpython_default (py_str 999) = py_str 999" by blast
  from format_number_grouping[of cpython_default 1234567] l
  have r2: "format_number cpython_default (py_str 1234567) = spec_group (py_str 1234567)"
    by blast
  from format_number_grouping[of cpython_default over_limit_number] over_limit_number_exceeds
  have r3: "format_number cpython_default (py_str over_limit_number) = py_str over_limit_number"
    by blast
  from r1 r2 r3 show ?thesis by (simp add: a p b)
qed

text \<open>
  With the limit of 4300 digits the decimal text of \<open>10 ^ 4300\<close> is not grouped.
\<close>

theorem format_number_grouping_counterexample:
  "format_number cpython_default (py_str over_limit_number)
     \<noteq> spec_group (py_str over_limit_number)"
proof
  assume e: "format_number cpython_default (py_str over_limit_number)
               = spec_group (py_str over_limit_number)"
  have d: "list_all (is_decimal cpython_default) (py_str over_limit_number)"
    using py_str_digits[of over_limit_number] ascii_digit_decimal by (auto simp: list_all_iff)
  have "format_number cpython_default ([] @ py_str over_limit_number @ [])
          = [] @ py_str over_limit_number @ []"
    using d over_limit_number_exceeds by (intro format_number_over_limit) simp_all
  with e have "spec_group (py_str over_limit_number) = py_str over_limit_number" by simp
  with over_limit_number_grouped over_limit_number_plain show False by simp
qed

text \<open>
  C2.  For a literal made of an optional minus sign, a nonempty run of decimal digits that
  does not exceed the limit of the interpreter, and optionally a decimal point with a run
  of decimal digits, \<open>format_number\<close> returns the sign, then the grouped digits of the
  number that the integer part denotes, then the point and the decimal digits exactly as
  they were.
\<close>

theorem format_number_sign_and_fraction:
  assumes "list_all (is_decimal U) ip" and "ip \<noteq> []"
    and "\<not> exceeds_limit (max_str_digits U) (length ip)"
    and "frac = [] \<or> (\<exists>d. frac = dot # d \<and> list_all (is_decimal U) d)"
    and "sg = [] \<or> sg = [minus_sign]"
  shows "format_number U (sg @ ip @ frac)
           = sg @ spec_group (py_str (decimal_value U ip)) @ frac"
  using assms by (rule format_number_literal)

theorem format_number_sign_and_fraction_witness:
  "format_number cpython_default (ustr ''-10000.00'') = ustr ''-10,000.00''
   \<and> format_number cpython_default (ustr ''10000.123'') = ustr ''10,000.123''"
proof -
  have d: "list_all (is_decimal cpython_default) (ustr ''10000'')"
    by (simp add: ustr_def is_decimal_def uni_decimal_def ascii_digit_def)
  have l: "\<not> exceeds_limit (max_str_digits cpython_default) (length (ustr ''10000''))"
    by (simp add: ustr_def exceeds_limit_def)
  have v: "spec_group (py_str (decimal_value cpython_default (ustr ''10000''))) = ustr ''10,000''"
    by (simp add: eval_defs decimal_value_def)
  have f1: "[dot, 48, 48] = []
            \<or> (\<exists>d. [dot, 48, 48] = dot # d \<and> list_all (is_decimal cpython_default) d)"
    by (simp add: is_decimal_def uni_decimal_def ascii_digit_def)
  have f2: "[dot, 49, 50, 51] = []
            \<or> (\<exists>d. [dot, 49, 50, 51] = dot # d \<and> list_all (is_decimal cpython_default) d)"
    by (simp add: is_decimal_def uni_decimal_def ascii_digit_def)
  have n: "ustr ''10000'' \<noteq> []" by (simp add: ustr_def)
  have "format_number cpython_default ([minus_sign] @ ustr ''10000'' @ [dot, 48, 48])
          = [minus_sign] @ ustr ''10,000'' @ [dot, 48, 48]"
    using format_number_sign_and_fraction[OF d n l f1, of "[minus_sign]"] v by simp
  moreover have "format_number cpython_default ([] @ ustr ''10000'' @ [dot, 49, 50, 51])
          = [] @ ustr ''10,000'' @ [dot, 49, 50, 51]"
    using format_number_sign_and_fraction[OF d n l f2, of "[]"] v by simp
  ultimately show ?thesis by (simp add: ustr_def minus_sign_def dot_def)
qed

text \<open>
  With the limit of 4300 digits the literal made of the decimal text of \<open>10 ^ 4300\<close>, a point
  and the digit 5 is returned as it is: its integer part is not grouped.
\<close>

theorem format_number_sign_and_fraction_counterexample:
  "format_number cpython_default (py_str over_limit_number @ [dot, 53])
     \<noteq> spec_group (py_str (decimal_value cpython_default (py_str over_limit_number)))
         @ [dot, 53]"
proof
  assume e: "format_number cpython_default (py_str over_limit_number @ [dot, 53])
               = spec_group (py_str (decimal_value cpython_default (py_str over_limit_number)))
                 @ [dot, 53]"
  have d: "list_all (is_decimal cpython_default) (py_str over_limit_number)"
    using py_str_digits[of over_limit_number] ascii_digit_decimal by (auto simp: list_all_iff)
  have f: "[dot, 53] = []
           \<or> (\<exists>d. [dot, 53] = dot # d \<and> list_all (is_decimal cpython_default) d)"
    by (simp add: is_decimal_def uni_decimal_def ascii_digit_def)
  have "format_number cpython_default ([] @ py_str over_limit_number @ [dot, 53])
          = [] @ py_str over_limit_number @ [dot, 53]"
    using d over_limit_number_exceeds f by (intro format_number_over_limit) simp_all
  with e have "spec_group (py_str over_limit_number) = py_str over_limit_number"
    by (simp add: decimal_value_py_str)
  with over_limit_number_grouped over_limit_number_plain show False by simp
qed

text \<open>
  C8.  \<open>format_number\<close> has no exceptional result, and whenever \<open>int\<close> rejects the integer
  part of its argument it returns the argument as it was, with its minus sign.
\<close>

theorem format_number_fails_closed:
  assumes "py_int U (integer_part s) = None"
  shows "format_number U s = s"
proof -
  from assms have "format_unsigned U (if startswith_minus s then tl s else s) = None"
    unfolding integer_part_def by (rule format_unsigned_fails)
  then show ?thesis
    by (cases s) (auto simp: format_number_def startswith_minus_def Let_def split: if_splits)
qed

theorem format_number_fails_closed_witness:
  "py_int cpython_default (integer_part (ustr ''-12a.5'')) = None
   \<and> format_number cpython_default (ustr ''-12a.5'') = ustr ''-12a.5''"
proof -
  have h: "py_int cpython_default (integer_part (ustr ''-12a.5'')) = None"
    by (simp add: eval_defs)
  from format_number_fails_closed[OF h] h show ?thesis by simp
qed

section \<open>A second pass of \<open>process_text\<close>\<close>

text \<open>
  C3.  \<open>process_text\<close> turns \<open>1000\<close> into \<open>1,000\<close>, and turns \<open>1,000\<close> into \<open>1,0\<close>: the three
  zeros after the comma are matched as a number of their own and rendered as \<open>0\<close>.  So a
  second pass changes the text that the first one produced.
\<close>

theorem process_text_second_pass:
  "process_text cpython_default (ustr ''1000'') = Inr (ustr ''1,000'')
   \<and> process_text cpython_default (ustr ''1,000'') = Inr (ustr ''1,0'')"
proof -
  have a: "process_text cpython_default (ustr ''1000'') = Inr (ustr ''1,000'')"
    by (simp add: eval_defs)
  have b: "process_text cpython_default (ustr ''1,000'') = Inr (ustr ''1,0'')"
    by (simp add: eval_defs)
  from a b show ?thesis by simp
qed

section \<open>The replacement of one match\<close>
















section \<open>Texts without digits\<close>

lemma digits_run_none: "\<forall>c\<in>set t. \<not> is_decimal U c \<Longrightarrow> digits_run U t p = 0"
proof -
  assume a: "\<forall>c\<in>set t. \<not> is_decimal U c"
  have "takeWhile (is_decimal U) (drop p t) = []"
  proof (cases "drop p t")
    case Nil
    then show ?thesis by simp
  next
    case (Cons c cs)
    then have "c \<in> set (drop p t)" by simp
    then have "c \<in> set t" by (rule in_set_dropD)
    with a Cons show ?thesis by simp
  qed
  then show ?thesis by (simp add: digits_run_def)
qed

lemma match_at_no_digits: "\<forall>c\<in>set t. \<not> is_decimal U c \<Longrightarrow> match_at U t pos = None"
  by (simp add: match_at_def digits_run_none)

lemma sub_from_no_digits:
  "\<forall>c\<in>set t. \<not> is_decimal U c \<Longrightarrow> sub_from U t pos = Inr (drop pos t)"
proof (induction U t pos rule: sub_from.induct)
  case (1 U t pos)
  have m: "match_at U t pos = None" using "1.prems" by (rule match_at_no_digits)
  show ?case
  proof (cases "pos < length t")
    case True
    then have nl: "\<not> length t < pos" by simp
    have "sub_from U t (pos + 1) = Inr (drop (pos + 1) t)"
      using nl m True "1.prems" by (rule "1.IH"(1))
    with True m show ?thesis
      by (subst sub_from.simps) (simp add: Cons_nth_drop_Suc)
  next
    case False
    with m show ?thesis by (subst sub_from.simps) simp
  qed
qed

lemma process_text_no_digits:
  "\<forall>c\<in>set t. \<not> is_decimal U c \<Longrightarrow> process_text U t = Inr t"
  by (simp add: process_text_def sub_from_no_digits)

lemma process_text_empty: "process_text U [] = Inr []"
  by (rule process_text_no_digits) simp

section \<open>The scan raises no exception\<close>














section \<open>Paragraphs and documents\<close>

lemma rewrite_runs_tail: "rewrite_runs f (Suc i) rs = map (\<lambda>r. r\<lparr>run_text := []\<rparr>) rs"
  by (induction rs arbitrary: i) simp_all

lemma process_paragraph_rewrites:
  assumes r: "runs p = r # rs"
    and f: "process_text U (paragraph_text p) = Inr f"
    and d: "f \<noteq> paragraph_text p"
  shows "process_paragraph U p =
           Inr (p\<lparr>runs := r\<lparr>run_text := f, shd_fill := Some ''FFFF00''\<rparr>
                            # map (\<lambda>x. x\<lparr>run_text := []\<rparr>) rs\<rparr>)"
proof -
  have "paragraph_text p \<noteq> []"
  proof
    assume "paragraph_text p = []"
    with f d process_text_empty[of U] show False by simp
  qed
  with r f d show ?thesis
    using rewrite_runs_tail[of f 0 rs]
    by (auto simp: process_paragraph_def Let_def)
qed

lemma process_paragraph_same:
  assumes "runs p = [] \<or> paragraph_text p = []
           \<or> process_text U (paragraph_text p) = Inr (paragraph_text p)"
  shows "process_paragraph U p = Inr p"
  using assms by (auto simp: process_paragraph_def Let_def)










text \<open>
  The message of a success determines both counts: they can be read back from it.
\<close>

lemma py_str_inject: "py_str a = py_str b \<Longrightarrow> a = b"
  by (metis digits_value_py_str)

lemma digits_prefix_unique:
  assumes "list_all ascii_digit xs" and "list_all ascii_digit ys"
    and "\<not> ascii_digit c" and "xs @ c # r = ys @ c # r'"
  shows "xs = ys \<and> r = r'"
proof -
  have "takeWhile ascii_digit (xs @ c # r) = xs"
    using assms(1,3) by (simp add: takeWhile_append2 list_all_iff)
  moreover have "takeWhile ascii_digit (ys @ c # r') = ys"
    using assms(2,3) by (simp add: takeWhile_append2 list_all_iff)
  ultimately have "xs = ys" using assms(4) by simp
  with assms(4) show ?thesis by simp
qed

lemma success_message_counts:
  assumes "message (success_result a b p) = message (success_result a' b' p')"
  shows "a = a' \<and> b = b'"
proof -
  from assms have e: "py_str a @ msg_tables @ py_str b = py_str a' @ msg_tables @ py_str b'"
    by (simp add: success_result_def)
  obtain r where r: "msg_tables = 10 # r" by (simp add: msg_tables_def)
  have n: "\<not> ascii_digit 10" by (simp add: ascii_digit_def)
  from e[unfolded r] have "py_str a @ 10 # (r @ py_str b) = py_str a' @ 10 # (r @ py_str b')"
    by (simp only: append_Cons)
  with py_str_digits py_str_digits n have "py_str a = py_str a' \<and> r @ py_str b = r @ py_str b'"
    by (rule digits_prefix_unique)
  then show ?thesis using py_str_inject by auto
qed

text \<open>
  The paragraphs of the example document: the first and the one in the table cell are
  rewritten and shaded, the date is left as it is.
\<close>

lemma example_paragraph_revenue: "process_paragraph cpython_default
     \<lparr> runs = [\<lparr> run_id = 0, run_text = ustr ''Revenue 1234567.89'', shd_fill = None \<rparr>] \<rparr>
   = Inr \<lparr> runs = [\<lparr> run_id = 0, run_text = ustr ''Revenue 1,234,567.89'',
                     shd_fill = Some ''FFFF00'' \<rparr>] \<rparr>"
  by (simp add: process_paragraph_def paragraph_text_def eval_defs)

lemma example_paragraph_date: "process_paragraph cpython_default
     \<lparr> runs = [\<lparr> run_id = 0, run_text = ustr ''Year 1999-12-31'', shd_fill = None \<rparr>] \<rparr>
   = Inr \<lparr> runs = [\<lparr> run_id = 0, run_text = ustr ''Year 1999-12-31'', shd_fill = None \<rparr>] \<rparr>"
  by (simp add: process_paragraph_def paragraph_text_def eval_defs)

lemma example_cell_paragraph: "process_paragraph cpython_default
     \<lparr> runs = [\<lparr> run_id = 0, run_text = ustr ''-5000'', shd_fill = None \<rparr>] \<rparr>
   = Inr \<lparr> runs = [\<lparr> run_id = 0, run_text = ustr ''-5,000'', shd_fill = Some ''FFFF00'' \<rparr>] \<rparr>"
  by (simp add: process_paragraph_def paragraph_text_def eval_defs)

section \<open>Properties of \<open>process_text\<close>\<close>

text \<open>
  The characters of the pattern's lookahead and of \<open>date_chars\<close>, as code points: the six
  markers are U+5E74, U+6708, U+65E5, U+65F6, U+5206 and U+79D2.
\<close>

lemma lookahead_code_points:
  "lookahead_chars = [45, 47, 24180, 26376, 26085, 26102, 20998, 31186, 37]"
  by (simp add: eval_defs)

lemma date_chars_code_points:
  "date_chars = [[24180], [26376], [26085], [26102], [20998], [31186], [45], [47], [46], [37]]"
  by (simp add: eval_defs)

lemma delimiters_code_points:
  "delimiters = [24180, 26376, 26085, 26102, 20998, 31186, 45, 47, 46, 37]"
  by (simp add: delimiters_def eval_defs)

text \<open>Four digits before any of the six markers are not matched and stay as they are.\<close>

lemma month_marker_unchanged:
  "process_text cpython_default (ustr ''2024'' @ [month_marker])
     = Inr (ustr ''2024'' @ [month_marker])"
  by (simp add: eval_defs)

lemma day_marker_unchanged:
  "process_text cpython_default (ustr ''2024'' @ [day_marker])
     = Inr (ustr ''2024'' @ [day_marker])"
  by (simp add: eval_defs)

lemma hour_marker_unchanged:
  "process_text cpython_default (ustr ''2024'' @ [hour_marker])
     = Inr (ustr ''2024'' @ [hour_marker])"
  by (simp add: eval_defs)

lemma minute_marker_unchanged:
  "process_text cpython_default (ustr ''2024'' @ [minute_marker])
     = Inr (ustr ''2024'' @ [minute_marker])"
  by (simp add: eval_defs)

lemma second_marker_unchanged:
  "process_text cpython_default (ustr ''2024'' @ [second_marker])
     = Inr (ustr ''2024'' @ [second_marker])"
  by (simp add: eval_defs)








section \<open>Properties of \<open>process_paragraph\<close>\<close>

text \<open>
  C6.  When the paragraph has a first run and the substituted text differs from the text of
  the paragraph, the first run gets the whole substituted text and the yellow shading, every
  later run gets the empty text and keeps its shading, and the runs stay the same in number
  and order.
\<close>

theorem process_paragraph_rewrites_runs:
  assumes "runs p = r # rs"
    and "process_text U (paragraph_text p) = Inr f"
    and "f \<noteq> paragraph_text p"
  shows "process_paragraph U p =
           Inr (p\<lparr>runs := r\<lparr>run_text := f, shd_fill := Some ''FFFF00''\<rparr>
                            # map (\<lambda>x. x\<lparr>run_text := []\<rparr>) rs\<rparr>)"
  using assms by (rule process_paragraph_rewrites)

theorem process_paragraph_rewrites_runs_witness:
  "paragraph_text \<lparr> runs = example_runs \<rparr> = ustr ''Total: 10000 units''
   \<and> process_paragraph cpython_default \<lparr> runs = example_runs \<rparr> =
       Inr \<lparr> runs =
         [\<lparr> run_id = 0, run_text = ustr ''Total: 10,000 units'', shd_fill = Some ''FFFF00'' \<rparr>,
          \<lparr> run_id = 1, run_text = [], shd_fill = None \<rparr>,
          \<lparr> run_id = 2, run_text = [], shd_fill = None \<rparr>] \<rparr>"
proof -
  have t: "paragraph_text \<lparr> runs = example_runs \<rparr> = ustr ''Total: 10000 units''"
    by (simp add: paragraph_text_def example_runs_def ustr_def)
  have f: "process_text cpython_default (ustr ''Total: 10000 units'')
             = Inr (ustr ''Total: 10,000 units'')"
    by (simp add: eval_defs)
  have d: "ustr ''Total: 10,000 units'' \<noteq> ustr ''Total: 10000 units''"
    by (simp add: ustr_def)
  have r: "runs \<lparr> runs = example_runs \<rparr> =
             \<lparr> run_id = 0, run_text = ustr ''Total: 10'', shd_fill = None \<rparr>
             # [\<lparr> run_id = 1, run_text = ustr ''000'', shd_fill = None \<rparr>,
                \<lparr> run_id = 2, run_text = ustr '' units'', shd_fill = None \<rparr>]"
    by (simp add: example_runs_def)
  from process_paragraph_rewrites_runs[OF r, of cpython_default "ustr ''Total: 10,000 units''"] f d t
  show ?thesis by simp
qed

text \<open>
  C7.  When the paragraph has no runs, or its text is empty, or the substituted text equals
  its text, or its text has no decimal digit, \<open>process_paragraph\<close> returns the paragraph as
  it was: every run keeps its text and its shading.
\<close>

theorem process_paragraph_noop:
  assumes "runs p = [] \<or> paragraph_text p = []
           \<or> process_text U (paragraph_text p) = Inr (paragraph_text p)
           \<or> (\<forall>c\<in>set (paragraph_text p). \<not> is_decimal U c)"
  shows "process_paragraph U p = Inr p"
proof -
  from assms have "runs p = [] \<or> paragraph_text p = []
           \<or> process_text U (paragraph_text p) = Inr (paragraph_text p)"
    using process_text_no_digits by blast
  then show ?thesis by (rule process_paragraph_same)
qed

theorem process_paragraph_noop_witness:
  "paragraph_text \<lparr> runs = [\<lparr> run_id = 0, run_text = ustr ''No '', shd_fill = None \<rparr>,
                            \<lparr> run_id = 1, run_text = ustr ''digits'', shd_fill = None \<rparr>] \<rparr>
     = ustr ''No digits''
   \<and> process_paragraph cpython_default
        \<lparr> runs = [\<lparr> run_id = 0, run_text = ustr ''No '', shd_fill = None \<rparr>,
                  \<lparr> run_id = 1, run_text = ustr ''digits'', shd_fill = None \<rparr>] \<rparr>
      = Inr \<lparr> runs = [\<lparr> run_id = 0, run_text = ustr ''No '', shd_fill = None \<rparr>,
                      \<lparr> run_id = 1, run_text = ustr ''digits'', shd_fill = None \<rparr>] \<rparr>"
proof -
  let ?p = "\<lparr> runs = [\<lparr> run_id = 0, run_text = ustr ''No '', shd_fill = None \<rparr>,
                      \<lparr> run_id = 1, run_text = ustr ''digits'', shd_fill = None \<rparr>] \<rparr>"
  have t: "paragraph_text ?p = ustr ''No digits''"
    by (simp add: paragraph_text_def ustr_def)
  have n: "\<forall>c\<in>set (paragraph_text ?p). \<not> is_decimal cpython_default c"
    by (simp add: paragraph_text_def eval_defs)
  then have "runs ?p = [] \<or> paragraph_text ?p = []
           \<or> process_text cpython_default (paragraph_text ?p) = Inr (paragraph_text ?p)
           \<or> (\<forall>c\<in>set (paragraph_text ?p). \<not> is_decimal cpython_default c)" by blast
  from process_paragraph_noop[OF this] t show ?thesis by blast
qed

section \<open>The result of \<open>process_document\<close>\<close>



end
